theory Spec2Isabelle
  imports Main
begin

section \<open>Values exchanged with the outside\<close>

text \<open>
  A Python exception as the handlers see it: the name of its class and the text that
  \<open>str(e)\<close> yields. Every exception of the model is an instance of \<open>Exception\<close>
  (\<open>ValueError\<close>, the errors of psycopg2, redis and Django all are), which is what the
  handlers' \<open>except Exception\<close> clauses catch.
\<close>

datatype py_exception = PyException (exc_class: string) (exc_str: string)

datatype json = JStr string | JInt int

text \<open>The object that \<open>jsonify\<close> and \<open>JsonResponse\<close> build: a status code and the
  dictionary handed over, in the order in which the literal lists its keys.\<close>

record response =
  status_code :: nat
  body :: "(string \<times> json) list"

text \<open>The request object a Django view is called with; neither view of this
  repository reads it.\<close>

record http_request =
  req_method :: string
  req_path :: string

text \<open>Keyword arguments of a call, in the order in which the call lists them.\<close>

datatype py_val = PStr string | PInt int | PBool bool

type_synonym kwargs = "(string \<times> py_val) list"

text \<open>The client object of \<open>redis.Redis(...)\<close>: it holds the settings it was built with.\<close>

type_synonym redis_client = kwargs

text \<open>Every call that leaves the process, in the order in which it is made.\<close>

datatype io_event =
    PgConnect kwargs
  | PgClose
  | RedisPing redis_client
  | RedisIncr redis_client string
  | DjCursor
  | DjExecute string
  | DjCursorClose

text \<open>
  Everything outside the handlers. \<open>int_of_str\<close> is the interpreter's \<open>int()\<close> on a
  string, taken as a parameter. The \<open>*_exc\<close> fields say how the next call of that kind
  ends: \<open>None\<close> when it returns, \<open>Some e\<close> when it raises \<open>e\<close> (\<open>pg_*\<close> for the
  psycopg2 connection of the Flask application, \<open>redis_exc\<close> for any command sent to the
  cache, \<open>dj_*\<close> for the database connection of the Django application). \<open>redis_data\<close>
  is the integer stored under each key of the cache; \<open>trace\<close> collects the calls made.
\<close>

record world =
  environ :: "string \<rightharpoonup> string"
  hostname :: string
  int_of_str :: "string \<Rightarrow> py_exception + int"
  pg_connect_exc :: "py_exception option"
  pg_close_exc :: "py_exception option"
  redis_exc :: "py_exception option"
  redis_data :: "string \<rightharpoonup> int"
  dj_cursor_exc :: "py_exception option"
  dj_execute_exc :: "py_exception option"
  trace :: "io_event list"

section \<open>Computations that may raise and that act on the world\<close>

type_synonym 'a io = "world \<Rightarrow> (py_exception + 'a) \<times> world"

definition return_io :: "'a \<Rightarrow> 'a io" where
  "return_io x = (\<lambda>w. (Inr x, w))"

definition raise_io :: "py_exception \<Rightarrow> 'a io" where
  "raise_io e = (\<lambda>w. (Inl e, w))"

definition bind_io :: "'a io \<Rightarrow> ('a \<Rightarrow> 'b io) \<Rightarrow> 'b io" where
  "bind_io m f = (\<lambda>w. case m w of (Inl e, w') \<Rightarrow> (Inl e, w') | (Inr x, w') \<Rightarrow> f x w')"

text \<open>\<open>try: m except Exception as e: h e\<close>\<close>

definition try_except :: "'a io \<Rightarrow> (py_exception \<Rightarrow> 'a io) \<Rightarrow> 'a io" where
  "try_except m h = (\<lambda>w. case m w of (Inl e, w') \<Rightarrow> h e w' | (Inr x, w') \<Rightarrow> (Inr x, w'))"

definition emit :: "io_event \<Rightarrow> unit io" where
  "emit ev = (\<lambda>w. (Inr (), w\<lparr>trace := trace w @ [ev]\<rparr>))"

text \<open>An external call: it is recorded, then it returns or raises as the world says.\<close>

definition call_out :: "io_event \<Rightarrow> (world \<Rightarrow> py_exception option) \<Rightarrow> unit io" where
  "call_out ev outcome =
     bind_io (emit ev) (\<lambda>_ w.
       case outcome w of Some e \<Rightarrow> raise_io e w | None \<Rightarrow> return_io () w)"

definition os_getenv :: "string \<Rightarrow> string \<Rightarrow> string io" where
  "os_getenv k d = (\<lambda>w. (Inr (case environ w k of Some v \<Rightarrow> v | None \<Rightarrow> d), w))"

definition py_int :: "string \<Rightarrow> int io" where
  "py_int s = (\<lambda>w. (int_of_str w s, w))"

definition socket_gethostname :: "string io" where
  "socket_gethostname = (\<lambda>w. (Inr (hostname w), w))"

definition jsonify :: "(string \<times> json) list \<Rightarrow> response io" where
  "jsonify d = return_io \<lparr>status_code = 200, body = d\<rparr>"

section \<open>The Flask application (docker-compose-python/app.py)\<close>

text \<open>The keyword arguments of \<open>psycopg2.connect\<close>, in the order of the call.\<close>

definition db_connect_kwargs :: "kwargs io" where
  "db_connect_kwargs =
     bind_io (os_getenv ''DB_HOST'' ''postgres'') (\<lambda>h.
     bind_io (os_getenv ''DB_NAME'' ''mydb'') (\<lambda>d.
     bind_io (os_getenv ''DB_USER'' ''admin'') (\<lambda>u.
     bind_io (os_getenv ''DB_PASSWORD'' ''secret123'') (\<lambda>p.
     bind_io (os_getenv ''DB_PORT'' ''5432'') (\<lambda>q.
     return_io [(''host'', PStr h), (''database'', PStr d), (''user'', PStr u),
                (''password'', PStr p), (''port'', PStr q)])))))"

definition get_db_connection :: "unit io" where
  "get_db_connection =
     bind_io db_connect_kwargs (\<lambda>kw. call_out (PgConnect kw) pg_connect_exc)"

definition conn_close :: "unit \<Rightarrow> unit io" where
  "conn_close conn = call_out PgClose pg_close_exc"

text \<open>Building the client opens no connection; only \<open>int(...)\<close> can raise here.\<close>

definition get_redis :: "redis_client io" where
  "get_redis =
     bind_io (os_getenv ''REDIS_HOST'' ''redis'') (\<lambda>h.
     bind_io (os_getenv ''REDIS_PORT'' ''6379'') (\<lambda>s.
     bind_io (py_int s) (\<lambda>p.
     return_io [(''host'', PStr h), (''port'', PInt p),
                (''decode_responses'', PBool True)])))"

definition redis_ping :: "redis_client \<Rightarrow> unit io" where
  "redis_ping r = call_out (RedisPing r) redis_exc"

text \<open>
  \<open>r.incr(name)\<close>: one \<open>INCR\<close> request. The store answers it in one step: a missing key
  counts as 0, the value is a signed 64-bit integer and a step past its maximum is
  refused with an error and leaves the value as it was.
\<close>

definition int64_max :: int where
  "int64_max = 9223372036854775807"

definition redis_incr :: "redis_client \<Rightarrow> string \<Rightarrow> int io" where
  "redis_incr r name =
     bind_io (call_out (RedisIncr r name) redis_exc) (\<lambda>_ w.
       let v = (case redis_data w name of Some n \<Rightarrow> n | None \<Rightarrow> 0) in
       if v = int64_max
       then (Inl (PyException ''ResponseError'' ''increment or decrement would overflow''), w)
       else (Inr (v + 1), w\<lparr>redis_data := (redis_data w)(name \<mapsto> v + 1)\<rparr>))"

definition home :: "response io" where
  "home =
     bind_io socket_gethostname (\<lambda>h.
     bind_io (os_getenv ''APP_ENV'' ''development'') (\<lambda>e.
     jsonify [(''message'', JStr ''Hello from Docker Compose!''),
              (''hostname'', JStr h),
              (''environment'', JStr e)]))"

text \<open>The two \<open>try\<close> blocks of \<open>health\<close>, each with the status string it assigns.\<close>

definition probe_db :: "string io" where
  "probe_db =
     try_except
       (bind_io get_db_connection (\<lambda>conn.
        bind_io (conn_close conn) (\<lambda>_.
        return_io ''connected'')))
       (\<lambda>e. return_io (''error: '' @ exc_str e))"

definition probe_redis :: "string io" where
  "probe_redis =
     try_except
       (bind_io get_redis (\<lambda>r.
        bind_io (redis_ping r) (\<lambda>_.
        return_io ''connected'')))
       (\<lambda>e. return_io (''error: '' @ exc_str e))"

definition health :: "response io" where
  "health =
     bind_io probe_db (\<lambda>db_status.
     bind_io probe_redis (\<lambda>redis_status.
     jsonify [(''status'', JStr ''healthy''),
              (''database'', JStr db_status),
              (''redis'', JStr redis_status)]))"

definition counter :: "response io" where
  "counter =
     bind_io get_redis (\<lambda>r.
     bind_io (redis_incr r ''hits'') (\<lambda>count.
     jsonify [(''visits'', JInt count)]))"

section \<open>The Django application (python/demo/urls.py)\<close>

text \<open>\<open>with connection.cursor() as cursor: cursor.execute("SELECT 1")\<close>: the cursor is
  closed on the way out, also when \<open>execute\<close> raised; Django's cursor wrapper
  swallows a database error of the closing itself, so the outcome is that of the body.\<close>

definition dj_select_one :: "unit io" where
  "dj_select_one =
     bind_io (call_out DjCursor dj_cursor_exc) (\<lambda>_ w.
       case call_out (DjExecute ''SELECT 1'') dj_execute_exc w of
         (res, w') \<Rightarrow> (res, snd (emit DjCursorClose w')))"

definition dj_home :: "http_request \<Rightarrow> response io" where
  "dj_home request =
     bind_io (try_except (bind_io dj_select_one (\<lambda>_. return_io ''connected''))
                (\<lambda>e. return_io (''error: '' @ exc_str e))) (\<lambda>db_status.
     bind_io socket_gethostname (\<lambda>h.
     bind_io (os_getenv ''APP_ENV'' ''development'') (\<lambda>e.
     jsonify [(''message'', JStr ''Hello from Django!''),
              (''hostname'', JStr h),
              (''environment'', JStr e),
              (''database'', JStr db_status)])))"

definition dj_health :: "http_request \<Rightarrow> response io" where
  "dj_health request = jsonify [(''status'', JStr ''healthy'')]"

section \<open>Reading a response\<close>

definition field :: "string \<Rightarrow> response \<Rightarrow> json option" where
  "field k resp = map_of (body resp) k"

definition fields :: "response \<Rightarrow> string list" where
  "fields resp = map fst (body resp)"

text \<open>The detail a status string carries: what follows \<open>error: \<close>, if the string
  starts with it.\<close>

definition error_detail :: "string \<Rightarrow> string option" where
  "error_detail s = (if take 7 s = ''error: '' then Some (drop 7 s) else None)"

text \<open>What the client of the Flask application receives: the status of the response the
  view returned, and 500 (Internal Server Error) for an exception that left the view.\<close>

definition http_status :: "py_exception + response \<Rightarrow> nat" where
  "http_status res = (case res of Inl e \<Rightarrow> 500 | Inr resp \<Rightarrow> status_code resp)"

text \<open>Requests served one after the other: each starts in the world the one before left.\<close>

fun serve :: "response io list \<Rightarrow> world \<Rightarrow> (py_exception + response) list \<times> world" where
  "serve [] w = ([], w)"
| "serve (h # hs) w =
     (case h w of (res, w') \<Rightarrow> (case serve hs w' of (rs, w'') \<Rightarrow> (res # rs, w'')))"

definition stored :: "world \<Rightarrow> string \<Rightarrow> int" where
  "stored w name = (case redis_data w name of Some n \<Rightarrow> n | None \<Rightarrow> 0)"

section \<open>Concurrent callers of the counter\<close>

text \<open>
  One call of \<open>counter\<close> in progress. Building the client is local to the caller; the
  \<open>INCR\<close> request is the only access to the shared store and the store answers requests
  one at a time; building the response is local again and is folded into the second step.
\<close>

datatype caller = Start | HaveClient redis_client | Finished "py_exception + response"

fun caller_step :: "caller \<Rightarrow> world \<Rightarrow> caller \<times> world" where
  "caller_step Start w =
     (case get_redis w of (Inl e, w') \<Rightarrow> (Finished (Inl e), w')
                        | (Inr r, w') \<Rightarrow> (HaveClient r, w'))"
| "caller_step (HaveClient r) w =
     (case bind_io (redis_incr r ''hits'') (\<lambda>count. jsonify [(''visits'', JInt count)]) w of
        (res, w') \<Rightarrow> (Finished res, w'))"
| "caller_step (Finished res) w = (Finished res, w)"

text \<open>A schedule names, step by step, the caller that moves next.\<close>

definition sched_step :: "nat \<Rightarrow> caller list \<times> world \<Rightarrow> caller list \<times> world" where
  "sched_step i st =
     (case st of (cs, w) \<Rightarrow>
        if i < length cs
        then (case caller_step (cs ! i) w of (c', w') \<Rightarrow> (cs[i := c'], w'))
        else (cs, w))"

definition run_sched :: "nat list \<Rightarrow> caller list \<times> world \<Rightarrow> caller list \<times> world" where
  "run_sched sched st = fold sched_step sched st"

text \<open>The number a finished caller was answered with.\<close>

fun returned :: "caller \<Rightarrow> int option" where
  "returned (Finished (Inr resp)) =
     (case body resp of [(k, JInt n)] \<Rightarrow> Some n | _ \<Rightarrow> None)"
| "returned _ = None"

text \<open>
  What holds of the callers and the store at every moment of a run that started with the
  value \<open>v0\<close> stored: the numbers handed out so far are exactly those between \<open>v0 + 1\<close>
  and the stored value, each to one caller.
\<close>

definition counter_inv :: "nat \<Rightarrow> int \<Rightarrow> caller list \<times> world \<Rightarrow> bool" where
  "counter_inv n v0 st =
     (case st of (cs, w) \<Rightarrow>
        length cs = n \<and> v0 \<le> stored w ''hits'' \<and>
        (\<forall>i<n. \<forall>m. returned (cs ! i) = Some m \<longrightarrow> v0 < m \<and> m \<le> stored w ''hits'') \<and>
        (\<forall>i<n. \<forall>j<n. \<forall>m. returned (cs ! i) = Some m \<and> returned (cs ! j) = Some m \<longrightarrow> i = j) \<and>
        (\<forall>m. v0 < m \<and> m \<le> stored w ''hits'' \<longrightarrow> (\<exists>i<n. returned (cs ! i) = Some m)) \<and>
        (\<forall>i<n. \<forall>resp. cs ! i = Finished (Inr resp) \<longrightarrow> returned (cs ! i) \<noteq> None))"

text \<open>Which dependency an external call goes to.\<close>

fun is_db_call :: "io_event \<Rightarrow> bool" where
  "is_db_call (PgConnect kw) = True"
| "is_db_call PgClose = True"
| "is_db_call _ = False"

fun is_redis_call :: "io_event \<Rightarrow> bool" where
  "is_redis_call (RedisPing r) = True"
| "is_redis_call (RedisIncr r name) = True"
| "is_redis_call _ = False"

section \<open>Sample worlds\<close>

definition refused :: py_exception where
  "refused = PyException ''ConnectionError''
     ''Error 111 connecting to redis:6379. Connection refused.''"

text \<open>A stand-in for \<open>int()\<close> that does what Python does on the two port strings
  the sample worlds use, \<open>6379\<close> and \<open>abc\<close>.\<close>

definition int_plain :: "string \<Rightarrow> py_exception + int" where
  "int_plain s =
     (if s = ''6379'' then Inr 6379
      else Inl (PyException ''ValueError''
             (''invalid literal for int() with base 10: '' @ [CHR 0x27] @ s @ [CHR 0x27])))"

text \<open>Nothing set in the environment, both services up, nothing stored yet.\<close>

definition world_up :: world where
  "world_up = \<lparr>environ = Map.empty, hostname = ''web-1'', int_of_str = int_plain,
     pg_connect_exc = None, pg_close_exc = None, redis_exc = None,
     redis_data = Map.empty, dj_cursor_exc = None, dj_execute_exc = None, trace = []\<rparr>"

text \<open>The database up, the cache refusing connections.\<close>

definition world_cache_down :: world where
  "world_cache_down = world_up\<lparr>redis_exc := Some refused\<rparr>"

text \<open>\<open>REDIS_PORT=abc\<close> in the environment.\<close>

definition world_bad_port :: world where
  "world_bad_port = world_up\<lparr>environ := [''REDIS_PORT'' \<mapsto> ''abc'']\<rparr>"

text \<open>The connection to the database ending in \<open>MemoryError()\<close>, an exception whose
  text is empty.\<close>

definition world_db_no_text :: world where
  "world_db_no_text = world_up\<lparr>pg_connect_exc := Some (PyException ''MemoryError'' [])\<rparr>"

section \<open>What each handler computes\<close>

lemmas io_defs = return_io_def raise_io_def bind_io_def try_except_def emit_def call_out_def
  os_getenv_def py_int_def socket_gethostname_def jsonify_def

lemma get_redis_eq:
  "get_redis w =
     (case int_of_str w (case environ w ''REDIS_PORT'' of Some v \<Rightarrow> v | None \<Rightarrow> ''6379'') of
        Inl e \<Rightarrow> (Inl e, w)
      | Inr p \<Rightarrow> (Inr [(''host'', PStr (case environ w ''REDIS_HOST'' of Some v \<Rightarrow> v
                                          | None \<Rightarrow> ''redis'')),
                        (''port'', PInt p), (''decode_responses'', PBool True)], w))"
  by (simp add: get_redis_def io_defs split: sum.splits)

lemma get_redis_world: "snd (get_redis w) = w"
  by (simp add: get_redis_eq split: sum.splits)

lemma get_redis_pair: "get_redis w = (fst (get_redis w), w)"
  by (simp add: get_redis_eq split: sum.splits)

lemma get_redis_trace [simp]: "fst (get_redis (w\<lparr>trace := t\<rparr>)) = fst (get_redis w)"
  by (simp add: get_redis_eq split: sum.splits)

lemma get_redis_data [simp]: "fst (get_redis (w\<lparr>redis_data := d\<rparr>)) = fst (get_redis w)"
  by (simp add: get_redis_eq split: sum.splits)

lemma db_connect_kwargs_eq:
  "\<exists>h d u p q. db_connect_kwargs w =
     (Inr [(''host'', PStr h), (''database'', PStr d), (''user'', PStr u),
           (''password'', PStr p), (''port'', PStr q)], w)"
  by (simp add: db_connect_kwargs_def io_defs)

lemma probe_db_eq:
  "db_connect_kwargs w = (Inr kw, w) \<Longrightarrow> probe_db w =
     (Inr (case pg_connect_exc w of Some e \<Rightarrow> ''error: '' @ exc_str e
           | None \<Rightarrow> (case pg_close_exc w of Some e \<Rightarrow> ''error: '' @ exc_str e
                       | None \<Rightarrow> ''connected'')),
      w\<lparr>trace := trace w @ PgConnect kw # (case pg_connect_exc w of Some e \<Rightarrow> [] | None \<Rightarrow> [PgClose])\<rparr>)"
  by (simp add: probe_db_def get_db_connection_def conn_close_def io_defs
      split: option.splits)

lemma probe_redis_eq:
  "probe_redis w =
     (case fst (get_redis w) of
        Inl e \<Rightarrow> (Inr (''error: '' @ exc_str e), w)
      | Inr r \<Rightarrow> (Inr (case redis_exc w of Some e \<Rightarrow> ''error: '' @ exc_str e | None \<Rightarrow> ''connected''),
                  w\<lparr>trace := trace w @ [RedisPing r]\<rparr>))"
proof -
  have "get_redis w = (fst (get_redis w), w)" by (rule get_redis_pair)
  then show ?thesis
    by (cases "fst (get_redis w)")
       (simp_all add: probe_redis_def redis_ping_def io_defs split: option.splits)
qed

lemma db_connect_kwargs_trace [simp]:
  "fst (db_connect_kwargs (w\<lparr>trace := t\<rparr>)) = fst (db_connect_kwargs w)"
  by (simp add: db_connect_kwargs_def io_defs)

lemma health_eq:
  assumes kw: "db_connect_kwargs w = (Inr kw, w)"
  shows "health w =
     (Inr \<lparr>status_code = 200, body =
        [(''status'', JStr ''healthy''),
         (''database'', JStr (case pg_connect_exc w of Some e \<Rightarrow> ''error: '' @ exc_str e
           | None \<Rightarrow> (case pg_close_exc w of Some e \<Rightarrow> ''error: '' @ exc_str e
                       | None \<Rightarrow> ''connected''))),
         (''redis'', JStr (case fst (get_redis w) of Inl e \<Rightarrow> ''error: '' @ exc_str e
           | Inr r \<Rightarrow> (case redis_exc w of Some e \<Rightarrow> ''error: '' @ exc_str e
                       | None \<Rightarrow> ''connected'')))]\<rparr>,
      w\<lparr>trace := trace w @ PgConnect kw #
            (case pg_connect_exc w of Some e \<Rightarrow> [] | None \<Rightarrow> [PgClose]) @
            (case fst (get_redis w) of Inl e \<Rightarrow> [] | Inr r \<Rightarrow> [RedisPing r])\<rparr>)"
  by (cases "fst (get_redis w)")
     (simp_all add: health_def bind_io_def probe_db_eq [OF kw] probe_redis_eq jsonify_def
        return_io_def)

lemma home_eq:
  "home w = (Inr \<lparr>status_code = 200, body =
      [(''message'', JStr ''Hello from Docker Compose!''),
       (''hostname'', JStr (hostname w)),
       (''environment'', JStr (case environ w ''APP_ENV'' of Some v \<Rightarrow> v
                               | None \<Rightarrow> ''development''))]\<rparr>, w)"
  by (simp add: home_def io_defs)

lemma dj_select_one_eq:
  "dj_select_one w =
     (case dj_cursor_exc w of
        Some e \<Rightarrow> (Inl e, w\<lparr>trace := trace w @ [DjCursor]\<rparr>)
      | None \<Rightarrow> ((case dj_execute_exc w of Some e \<Rightarrow> Inl e | None \<Rightarrow> Inr ()),
                 w\<lparr>trace := trace w @ [DjCursor, DjExecute ''SELECT 1'', DjCursorClose]\<rparr>))"
  by (simp add: dj_select_one_def io_defs split: option.splits)

lemma dj_home_eq:
  "dj_home request w = (Inr \<lparr>status_code = 200, body =
      [(''message'', JStr ''Hello from Django!''),
       (''hostname'', JStr (hostname w)),
       (''environment'', JStr (case environ w ''APP_ENV'' of Some v \<Rightarrow> v
                               | None \<Rightarrow> ''development'')),
       (''database'', JStr (case dj_cursor_exc w of Some e \<Rightarrow> ''error: '' @ exc_str e
           | None \<Rightarrow> (case dj_execute_exc w of Some e \<Rightarrow> ''error: '' @ exc_str e
                       | None \<Rightarrow> ''connected'')))]\<rparr>,
      w\<lparr>trace := trace w @ DjCursor #
            (case dj_cursor_exc w of Some e \<Rightarrow> []
             | None \<Rightarrow> [DjExecute ''SELECT 1'', DjCursorClose])\<rparr>)"
  by (simp add: dj_home_def dj_select_one_eq io_defs split: option.splits)

lemma redis_incr_eq:
  "redis_incr r name w =
     (case redis_exc w of
        Some e \<Rightarrow> (Inl e, w\<lparr>trace := trace w @ [RedisIncr r name]\<rparr>)
      | None \<Rightarrow>
         if stored w name = int64_max
         then (Inl (PyException ''ResponseError'' ''increment or decrement would overflow''),
               w\<lparr>trace := trace w @ [RedisIncr r name]\<rparr>)
         else (Inr (stored w name + 1),
               w\<lparr>trace := trace w @ [RedisIncr r name],
                 redis_data := (redis_data w)(name \<mapsto> stored w name + 1)\<rparr>))"
  by (simp add: redis_incr_def stored_def io_defs Let_def split: option.splits)

lemma counter_eq:
  "counter w =
     (case fst (get_redis w) of
        Inl e \<Rightarrow> (Inl e, w)
      | Inr r \<Rightarrow>
         (case redis_exc w of
            Some e \<Rightarrow> (Inl e, w\<lparr>trace := trace w @ [RedisIncr r ''hits'']\<rparr>)
          | None \<Rightarrow>
             if stored w ''hits'' = int64_max
             then (Inl (PyException ''ResponseError'' ''increment or decrement would overflow''),
                   w\<lparr>trace := trace w @ [RedisIncr r ''hits'']\<rparr>)
             else (Inr \<lparr>status_code = 200, body = [(''visits'', JInt (stored w ''hits'' + 1))]\<rparr>,
                   w\<lparr>trace := trace w @ [RedisIncr r ''hits''],
                     redis_data := (redis_data w)(''hits'' \<mapsto> stored w ''hits'' + 1)\<rparr>)))"
proof -
  have "get_redis w = (fst (get_redis w), w)" by (rule get_redis_pair)
  then show ?thesis
    by (cases "fst (get_redis w)")
       (simp_all add: counter_def bind_io_def redis_incr_eq jsonify_def return_io_def
          split: option.splits)
qed


lemmas sample_defs = world_up_def world_cache_down_def world_bad_port_def refused_def int_plain_def

lemma db_kwargs_obtain:
  obtains kw where "db_connect_kwargs w = (Inr kw, w)"
    and "map fst kw = [''host'', ''database'', ''user'', ''password'', ''port'']"
  using db_connect_kwargs_eq [of w] by auto

section \<open>The health report of the Flask application\<close>

text \<open>
  C4. Whatever the database and the cache do (connect, refuse, raise on close, a port
  that does not parse), neither \<open>try\<close> block of \<open>health\<close> lets an exception out. The
  first block asks the database for a connection and closes it; the second builds the
  cache client and pings it. Each turns the first exception raised inside it, if any,
  into the string \<open>error: \<close> followed by the text of that exception, and into
  \<open>connected\<close> when nothing was raised. \<open>health\<close> returns a response with status 200
  whose fields \<open>database\<close> and \<open>redis\<close> are those two strings.
\<close>

theorem health_always_reports:
  "\<exists>kw w1 w2. db_connect_kwargs w = (Inr kw, w) \<and>
     probe_db w =
       (Inr (case pg_connect_exc w of Some e \<Rightarrow> ''error: '' @ exc_str e
             | None \<Rightarrow> (case pg_close_exc w of Some e \<Rightarrow> ''error: '' @ exc_str e
                         | None \<Rightarrow> ''connected'')), w1) \<and>
     trace w1 = trace w @
       PgConnect kw # (case pg_connect_exc w of Some e \<Rightarrow> [] | None \<Rightarrow> [PgClose]) \<and>
     probe_redis w1 =
       (Inr (case fst (get_redis w) of Inl e \<Rightarrow> ''error: '' @ exc_str e
             | Inr r \<Rightarrow> (case redis_exc w of Some e \<Rightarrow> ''error: '' @ exc_str e
                         | None \<Rightarrow> ''connected'')), w2) \<and>
     trace w2 = trace w1 @
       (case fst (get_redis w) of Inl e \<Rightarrow> [] | Inr r \<Rightarrow> [RedisPing r]) \<and>
     health w = (Inr \<lparr>status_code = 200, body =
        [(''status'', JStr ''healthy''),
         (''database'', JStr (case pg_connect_exc w of Some e \<Rightarrow> ''error: '' @ exc_str e
             | None \<Rightarrow> (case pg_close_exc w of Some e \<Rightarrow> ''error: '' @ exc_str e
                         | None \<Rightarrow> ''connected''))),
         (''redis'', JStr (case fst (get_redis w) of Inl e \<Rightarrow> ''error: '' @ exc_str e
             | Inr r \<Rightarrow> (case redis_exc w of Some e \<Rightarrow> ''error: '' @ exc_str e
                         | None \<Rightarrow> ''connected'')))]\<rparr>, w2) \<and>
     http_status (fst (health w)) = 200"
proof -
  obtain kw where kw: "db_connect_kwargs w = (Inr kw, w)" by (rule db_kwargs_obtain)
  define w1 where "w1 = snd (probe_db w)"
  define w2 where "w2 = snd (probe_redis w1)"
  have t1: "trace w1 = trace w @
       PgConnect kw # (case pg_connect_exc w of Some e \<Rightarrow> [] | None \<Rightarrow> [PgClose])"
    by (simp add: w1_def probe_db_eq [OF kw])
  have g1: "fst (get_redis w1) = fst (get_redis w)" and x1: "redis_exc w1 = redis_exc w"
    by (simp_all add: w1_def probe_db_eq [OF kw])
  have p1: "probe_db w =
       (Inr (case pg_connect_exc w of Some e \<Rightarrow> ''error: '' @ exc_str e
             | None \<Rightarrow> (case pg_close_exc w of Some e \<Rightarrow> ''error: '' @ exc_str e
                         | None \<Rightarrow> ''connected'')), w1)"
    by (simp add: w1_def probe_db_eq [OF kw])
  have p2: "probe_redis w1 =
       (Inr (case fst (get_redis w) of Inl e \<Rightarrow> ''error: '' @ exc_str e
             | Inr r \<Rightarrow> (case redis_exc w of Some e \<Rightarrow> ''error: '' @ exc_str e
                         | None \<Rightarrow> ''connected'')), w2)"
    unfolding w2_def by (cases "fst (get_redis w)") (simp_all add: probe_redis_eq g1 x1)
  have t2: "trace w2 = trace w1 @
       (case fst (get_redis w) of Inl e \<Rightarrow> [] | Inr r \<Rightarrow> [RedisPing r])"
    unfolding w2_def by (cases "fst (get_redis w)") (simp_all add: probe_redis_eq g1 x1)
  have h: "health w = (Inr \<lparr>status_code = 200, body =
        [(''status'', JStr ''healthy''),
         (''database'', JStr (case pg_connect_exc w of Some e \<Rightarrow> ''error: '' @ exc_str e
             | None \<Rightarrow> (case pg_close_exc w of Some e \<Rightarrow> ''error: '' @ exc_str e
                         | None \<Rightarrow> ''connected''))),
         (''redis'', JStr (case fst (get_redis w) of Inl e \<Rightarrow> ''error: '' @ exc_str e
             | Inr r \<Rightarrow> (case redis_exc w of Some e \<Rightarrow> ''error: '' @ exc_str e
                         | None \<Rightarrow> ''connected'')))]\<rparr>, w2)"
    by (simp add: health_def bind_io_def p1 p2 jsonify_def return_io_def)
  have s: "http_status (fst (health w)) = 200" by (simp add: h http_status_def)
  show ?thesis
    using kw p1 t1 p2 t2 h s
    by - (rule exI [of _ kw], rule exI [of _ w1], rule exI [of _ w2], intro conjI, assumption+)
qed


text \<open>
  C5. In every execution the results follow the order in which the dependencies are
  written in \<open>health\<close>, database first, then cache. After the constant \<open>status\<close> the body
  holds, in this order, the field \<open>database\<close> with what the database probe returned and
  the field \<open>redis\<close> with what the cache probe returned; each of the two strings is
  decided by its own dependency alone. The probes run one after the other: every call to
  the database is made, and has ended, before the first call to the cache, so the order
  in which the probes complete is the order of the report as well.
\<close>

theorem health_fields_in_order:
  "\<exists>resp w' kw d c. health w = (Inr resp, w') \<and> db_connect_kwargs w = (Inr kw, w) \<and>
     fst (probe_db w) = Inr d \<and> fst (probe_redis (snd (probe_db w))) = Inr c \<and>
     d = (case pg_connect_exc w of Some e \<Rightarrow> ''error: '' @ exc_str e
          | None \<Rightarrow> (case pg_close_exc w of Some e \<Rightarrow> ''error: '' @ exc_str e
                      | None \<Rightarrow> ''connected'')) \<and>
     c = (case fst (get_redis w) of Inl e \<Rightarrow> ''error: '' @ exc_str e
          | Inr r \<Rightarrow> (case redis_exc w of Some e \<Rightarrow> ''error: '' @ exc_str e
                      | None \<Rightarrow> ''connected'')) \<and>
     tl (body resp) = [(''database'', JStr d), (''redis'', JStr c)] \<and>
     fields resp = [''status'', ''database'', ''redis''] \<and>
     trace w' = trace w @
       (PgConnect kw # (case pg_connect_exc w of Some e \<Rightarrow> [] | None \<Rightarrow> [PgClose])) @
       (case fst (get_redis w) of Inl e \<Rightarrow> [] | Inr r \<Rightarrow> [RedisPing r]) \<and>
     list_all is_db_call
       (PgConnect kw # (case pg_connect_exc w of Some e \<Rightarrow> [] | None \<Rightarrow> [PgClose])) \<and>
     list_all is_redis_call
       (case fst (get_redis w) of Inl e \<Rightarrow> [] | Inr r \<Rightarrow> [RedisPing r])"
proof -
  obtain kw where kw: "db_connect_kwargs w = (Inr kw, w)" by (rule db_kwargs_obtain)
  let ?d = "case pg_connect_exc w of Some e \<Rightarrow> ''error: '' @ exc_str e
          | None \<Rightarrow> (case pg_close_exc w of Some e \<Rightarrow> ''error: '' @ exc_str e
                      | None \<Rightarrow> ''connected'')"
  let ?c = "case fst (get_redis w) of Inl e \<Rightarrow> ''error: '' @ exc_str e
          | Inr r \<Rightarrow> (case redis_exc w of Some e \<Rightarrow> ''error: '' @ exc_str e
                      | None \<Rightarrow> ''connected'')"
  let ?dbs = "PgConnect kw # (case pg_connect_exc w of Some e \<Rightarrow> [] | None \<Rightarrow> [PgClose])"
  let ?rds = "case fst (get_redis w) of Inl e \<Rightarrow> [] | Inr r \<Rightarrow> [RedisPing r]"
  let ?resp = "projr (fst (health w))"
  have h: "health w = (Inr ?resp, snd (health w))"
    by (simp add: health_eq [OF kw])
  have pd: "fst (probe_db w) = Inr ?d" by (simp add: probe_db_eq [OF kw])
  have pc: "fst (probe_redis (snd (probe_db w))) = Inr ?c"
    by (cases "fst (get_redis w)") (simp_all add: probe_db_eq [OF kw] probe_redis_eq)
  have b: "tl (body ?resp) = [(''database'', JStr ?d), (''redis'', JStr ?c)]"
    by (simp add: health_eq [OF kw])
  have f: "fields ?resp = [''status'', ''database'', ''redis'']"
    by (simp add: health_eq [OF kw] fields_def)
  have t: "trace (snd (health w)) = trace w @ ?dbs @ ?rds"
    by (simp add: health_eq [OF kw])
  have l1: "list_all is_db_call ?dbs" by (simp split: option.splits)
  have l2: "list_all is_redis_call ?rds" by (simp split: sum.splits)
  show ?thesis
    using h kw pd pc b f t l1 l2
    by - (rule exI [of _ ?resp], rule exI [of _ "snd (health w)"], rule exI [of _ kw],
          rule exI [of _ ?d], rule exI [of _ ?c], intro conjI refl, assumption+)
qed


text \<open>
  C6, as stated, fails: the detail is the text of the exception, whatever it is, and an
  exception may carry no text. When the connection to the database ends in
  \<open>MemoryError()\<close>, whose text is empty, the probe reports \<open>error: \<close> and the detail
  after the prefix is the empty string.
\<close>

theorem probe_detail_counterexample:
  "pg_connect_exc world_db_no_text = Some (PyException ''MemoryError'' []) \<and>
   fst (probe_db world_db_no_text) = Inr ''error: '' \<and>
   error_detail ''error: '' = Some [] \<and>
   fst (health world_db_no_text) = Inr \<lparr>status_code = 200, body =
     [(''status'', JStr ''healthy''), (''database'', JStr ''error: ''),
      (''redis'', JStr ''connected'')]\<rparr>"
proof -
  obtain kw where kw: "db_connect_kwargs world_db_no_text = (Inr kw, world_db_no_text)"
    by (rule db_kwargs_obtain)
  have x: "pg_connect_exc world_db_no_text = Some (PyException ''MemoryError'' [])"
    by (simp add: world_db_no_text_def)
  have g: "fst (get_redis world_db_no_text) =
      Inr [(''host'', PStr ''redis''), (''port'', PInt 6379), (''decode_responses'', PBool True)]"
    by (simp add: get_redis_eq) (simp add: world_db_no_text_def sample_defs)
  have r: "redis_exc world_db_no_text = None"
    by (simp add: world_db_no_text_def sample_defs)
  show ?thesis
    by (simp add: health_eq [OF kw] probe_db_eq [OF kw] x g r error_detail_def)
qed

text \<open>
  C6, amended. A probe that goes through reports \<open>connected\<close>, a string without error
  detail. A probe that fails, at whatever step and with whatever exception, reports
  \<open>error: \<close> followed by the text of the first exception raised, so the detail it
  carries is exactly that text: non-empty whenever the exception has a text, empty when
  it has none.
\<close>

theorem probe_outcome_reported:
  "fst (probe_db w) =
     Inr (case pg_connect_exc w of Some e \<Rightarrow> ''error: '' @ exc_str e
          | None \<Rightarrow> (case pg_close_exc w of Some e \<Rightarrow> ''error: '' @ exc_str e
                      | None \<Rightarrow> ''connected'')) \<and>
   fst (probe_redis w) =
     Inr (case fst (get_redis w) of Inl e \<Rightarrow> ''error: '' @ exc_str e
          | Inr r \<Rightarrow> (case redis_exc w of Some e \<Rightarrow> ''error: '' @ exc_str e
                      | None \<Rightarrow> ''connected'')) \<and>
   map_sum exc_class error_detail (fst (probe_db w)) =
     Inr (case pg_connect_exc w of Some e \<Rightarrow> Some (exc_str e)
          | None \<Rightarrow> (case pg_close_exc w of Some e \<Rightarrow> Some (exc_str e) | None \<Rightarrow> None)) \<and>
   map_sum exc_class error_detail (fst (probe_redis w)) =
     Inr (case fst (get_redis w) of Inl e \<Rightarrow> Some (exc_str e)
          | Inr r \<Rightarrow> (case redis_exc w of Some e \<Rightarrow> Some (exc_str e) | None \<Rightarrow> None))"
proof -
  obtain kw where kw: "db_connect_kwargs w = (Inr kw, w)" by (rule db_kwargs_obtain)
  show ?thesis
    by (cases "fst (get_redis w)")
       (simp_all add: probe_db_eq [OF kw] probe_redis_eq error_detail_def split: option.splits)
qed

theorem probe_outcome_reported_witness:
  "pg_connect_exc world_cache_down = None \<and> pg_close_exc world_cache_down = None \<and>
   redis_exc world_cache_down = Some refused \<and>
   fst (probe_db world_cache_down) = Inr ''connected'' \<and>
   map_sum exc_class error_detail (fst (probe_db world_cache_down)) = Inr None \<and>
   fst (probe_redis world_cache_down) =
     Inr ''error: Error 111 connecting to redis:6379. Connection refused.'' \<and>
   map_sum exc_class error_detail (fst (probe_redis world_cache_down)) =
     Inr (Some ''Error 111 connecting to redis:6379. Connection refused.'')"
proof -
  have g: "fst (get_redis world_cache_down) =
      Inr [(''host'', PStr ''redis''), (''port'', PInt 6379), (''decode_responses'', PBool True)]"
    by (simp add: get_redis_eq) (simp add: sample_defs)
  have x: "pg_connect_exc world_cache_down = None \<and> pg_close_exc world_cache_down = None \<and>
      redis_exc world_cache_down = Some refused"
    by (simp add: sample_defs)
  have s: "exc_str refused = ''Error 111 connecting to redis:6379. Connection refused.''"
    by (simp add: refused_def)
  from g x s probe_outcome_reported [of world_cache_down] show ?thesis by auto
qed


text \<open>
  C1, as stated, fails: with the database up and the cache refusing connections the
  report still says \<open>healthy\<close>, next to the error of the cache.
\<close>

theorem health_status_counterexample:
  "redis_exc world_cache_down = Some refused \<and>
   fst (health world_cache_down) = Inr \<lparr>status_code = 200, body =
     [(''status'', JStr ''healthy''), (''database'', JStr ''connected''),
      (''redis'', JStr ''error: Error 111 connecting to redis:6379. Connection refused.'')]\<rparr>"
proof -
  obtain kw where kw: "db_connect_kwargs world_cache_down = (Inr kw, world_cache_down)"
    by (rule db_kwargs_obtain)
  show ?thesis
    by (simp add: health_eq [OF kw] get_redis_eq) (simp add: sample_defs)
qed

text \<open>
  C1, amended. For every outcome of the probes the \<open>status\<close> field of the report is
  \<open>healthy\<close>, whether or not the dependencies are reachable; a failure shows only in
  the field of its dependency. In particular, when the database probe succeeds and the
  cache probe fails, the body is \<open>status: healthy\<close>, \<open>database: connected\<close>,
  \<open>redis: error: ...\<close>, with status 200.
\<close>

theorem health_status_always_healthy:
  "\<exists>resp w'. health w = (Inr resp, w') \<and> status_code resp = 200 \<and>
     field ''status'' resp = Some (JStr ''healthy'') \<and>
     (pg_connect_exc w = None \<and> pg_close_exc w = None \<and> redis_exc w = Some e \<longrightarrow>
        (\<exists>d. body resp = [(''status'', JStr ''healthy''), (''database'', JStr ''connected''),
                          (''redis'', JStr (''error: '' @ d))]))"
proof -
  obtain kw where kw: "db_connect_kwargs w = (Inr kw, w)" by (rule db_kwargs_obtain)
  show ?thesis
    by (cases "fst (get_redis w)") (simp_all add: health_eq [OF kw] field_def)
qed

theorem health_status_always_healthy_witness:
  "pg_connect_exc world_cache_down = None \<and> pg_close_exc world_cache_down = None \<and>
   redis_exc world_cache_down = Some refused \<and>
   (\<exists>resp w'. health world_cache_down = (Inr resp, w') \<and>
      field ''status'' resp = Some (JStr ''healthy'') \<and>
      (\<exists>d. body resp = [(''status'', JStr ''healthy''), (''database'', JStr ''connected''),
                        (''redis'', JStr (''error: '' @ d))]))"
proof -
  have h: "pg_connect_exc world_cache_down = None \<and> pg_close_exc world_cache_down = None \<and>
      redis_exc world_cache_down = Some refused"
    by (simp add: sample_defs)
  from health_status_always_healthy [of world_cache_down refused] h
  show ?thesis by blast
qed

text \<open>
  C7, as stated, fails: neither the call that opens the database connection nor the
  construction of the cache client is given a timeout setting.
\<close>

theorem probe_timeout_counterexample:
  "fst (db_connect_kwargs world_up) =
     Inr [(''host'', PStr ''postgres''), (''database'', PStr ''mydb''),
          (''user'', PStr ''admin''), (''password'', PStr ''secret123''),
          (''port'', PStr ''5432'')] \<and>
   map_sum id (\<lambda>kw. map_of kw ''connect_timeout'') (fst (db_connect_kwargs world_up)) =
     Inr None \<and>
   fst (get_redis world_up) =
     Inr [(''host'', PStr ''redis''), (''port'', PInt 6379),
          (''decode_responses'', PBool True)] \<and>
   map_sum id (\<lambda>r. (map_of r ''socket_timeout'', map_of r ''socket_connect_timeout''))
     (fst (get_redis world_up)) = Inr (None, None)"
  by (simp add: get_redis_eq db_connect_kwargs_def io_defs) (simp add: sample_defs)

text \<open>
  C7, amended. No probe configures a timeout: in every environment the database
  connection is requested with exactly the settings \<open>host\<close>, \<open>database\<close>, \<open>user\<close>,
  \<open>password\<close> and \<open>port\<close>, and the cache client is built, and pinged, with exactly
  \<open>host\<close>, \<open>port\<close> and \<open>decode_responses\<close>; the code sets no bound on how long a
  probe may block.
\<close>

theorem probes_configure_no_timeout:
  "(\<exists>kw. db_connect_kwargs w = (Inr kw, w) \<and>
      map fst kw = [''host'', ''database'', ''user'', ''password'', ''port''] \<and>
      trace (snd (get_db_connection w)) = trace w @ [PgConnect kw]) \<and>
   (\<forall>r. fst (get_redis w) = Inr r \<longrightarrow>
      map fst r = [''host'', ''port'', ''decode_responses''] \<and>
      trace (snd (redis_ping r w)) = trace w @ [RedisPing r])"
proof -
  obtain kw where kw: "db_connect_kwargs w = (Inr kw, w)"
    and keys: "map fst kw = [''host'', ''database'', ''user'', ''password'', ''port'']"
    by (rule db_kwargs_obtain)
  have tr: "trace (snd (get_db_connection w)) = trace w @ [PgConnect kw]"
    by (simp add: get_db_connection_def bind_io_def kw call_out_def emit_def raise_io_def
        return_io_def split: option.splits)
  have a: "\<exists>kw. db_connect_kwargs w = (Inr kw, w) \<and>
      map fst kw = [''host'', ''database'', ''user'', ''password'', ''port''] \<and>
      trace (snd (get_db_connection w)) = trace w @ [PgConnect kw]"
    using kw keys tr by - (rule exI [of _ kw], intro conjI, assumption+)
  have b: "\<forall>r. fst (get_redis w) = Inr r \<longrightarrow>
      map fst r = [''host'', ''port'', ''decode_responses''] \<and>
      trace (snd (redis_ping r w)) = trace w @ [RedisPing r]"
    by (auto simp add: get_redis_eq redis_ping_def call_out_def emit_def bind_io_def
        raise_io_def return_io_def split: sum.splits option.splits)
  from a b show ?thesis ..
qed

theorem probes_configure_no_timeout_witness:
  "fst (get_redis world_up) =
     Inr [(''host'', PStr ''redis''), (''port'', PInt 6379), (''decode_responses'', PBool True)] \<and>
   map fst [(''host'', PStr ''redis''), (''port'', PInt 6379), (''decode_responses'', PBool True)] =
     [''host'', ''port'', ''decode_responses''] \<and>
   trace (snd (redis_ping [(''host'', PStr ''redis''), (''port'', PInt 6379),
     (''decode_responses'', PBool True)] world_up)) =
     trace world_up @ [RedisPing [(''host'', PStr ''redis''), (''port'', PInt 6379),
     (''decode_responses'', PBool True)]]"
proof -
  have g: "fst (get_redis world_up) =
      Inr [(''host'', PStr ''redis''), (''port'', PInt 6379), (''decode_responses'', PBool True)]"
    by (simp add: get_redis_eq) (simp add: sample_defs)
  from probes_configure_no_timeout [of world_up] g show ?thesis by blast
qed

section \<open>The counter\<close>

text \<open>
  C2, as stated, fails: with the cache refusing connections \<open>counter\<close> lets the client's
  own \<open>ConnectionError\<close> out of the view; there is no \<open>DependencyUnavailable\<close> error and
  the answer is 500, not 503.
\<close>

theorem counter_unavailable_counterexample:
  "redis_exc world_cache_down = Some refused \<and>
   fst (counter world_cache_down) =
     Inl (PyException ''ConnectionError''
            ''Error 111 connecting to redis:6379. Connection refused.'') \<and>
   http_status (fst (counter world_cache_down)) = 500 \<and>
   http_status (fst (counter world_cache_down)) \<noteq> 503"
  by (simp add: counter_eq get_redis_eq http_status_def) (simp add: sample_defs)

text \<open>
  C2, amended. If the shared store is unreachable, a call to the counter endpoint raises:
  the exception of the store client (or that of the port conversion, when the client could
  not even be built) leaves the handler unhandled and is answered with status 500. The
  stored value is untouched and no number is returned, so there is no fall-back to a local
  counter. \<open>home\<close> and \<open>health\<close> answer 200 in every world, so \<open>counter\<close> is the only
  endpoint of the Flask application that answers with an error status.
\<close>

theorem counter_store_unreachable:
  assumes "redis_exc w = Some e"
  shows "\<exists>e' w'. counter w = (Inl e', w') \<and>
           e' = (case fst (get_redis w) of Inl c \<Rightarrow> c | Inr r \<Rightarrow> e) \<and>
           redis_data w' = redis_data w \<and>
           http_status (fst (counter w)) = 500 \<and>
           http_status (fst (home v)) = 200 \<and> http_status (fst (health v)) = 200"
proof -
  obtain kw where kw: "db_connect_kwargs v = (Inr kw, v)" by (rule db_kwargs_obtain)
  have "http_status (fst (home v)) = 200 \<and> http_status (fst (health v)) = 200"
    by (simp add: home_eq health_eq [OF kw] http_status_def)
  then show ?thesis using assms
    by (cases "fst (get_redis w)") (simp_all add: counter_eq http_status_def)
qed

theorem counter_store_unreachable_witness:
  "redis_exc world_cache_down = Some refused \<and>
   (\<exists>w'. counter world_cache_down = (Inl refused, w') \<and>
      redis_data w' = redis_data world_cache_down) \<and>
   http_status (fst (counter world_cache_down)) = 500 \<and>
   http_status (fst (home world_up)) = 200 \<and> http_status (fst (health world_up)) = 200"
proof -
  have h: "redis_exc world_cache_down = Some refused" by (simp add: sample_defs)
  have g: "fst (get_redis world_cache_down) =
      Inr [(''host'', PStr ''redis''), (''port'', PInt 6379), (''decode_responses'', PBool True)]"
    by (simp add: get_redis_eq) (simp add: sample_defs)
  from counter_store_unreachable [OF h, of world_up] g h show ?thesis by auto
qed

text \<open>
  C3, as stated, fails: with \<open>REDIS_PORT=abc\<close> the call raises \<open>ValueError\<close> while the
  client is built and issues no request at all.
\<close>

theorem counter_requests_counterexample:
  "environ world_bad_port ''REDIS_PORT'' = Some ''abc'' \<and>
   map_sum exc_class id (fst (counter world_bad_port)) = Inl ''ValueError'' \<and>
   snd (counter world_bad_port) = world_bad_port \<and>
   trace (snd (counter world_bad_port)) = []"
  by (simp add: counter_eq get_redis_eq) (simp add: sample_defs)

lemma counter_ok:
  assumes "fst (get_redis w) = Inr r" and "redis_exc w = None"
    and "stored w ''hits'' = n" and "n \<noteq> int64_max"
  shows "counter w =
    (Inr \<lparr>status_code = 200, body = [(''visits'', JInt (n + 1))]\<rparr>,
     w\<lparr>trace := trace w @ [RedisIncr r ''hits''],
       redis_data := (redis_data w)(''hits'' \<mapsto> n + 1)\<rparr>)"
  using assms by (simp add: counter_eq)

lemma counter_ok_next:
  assumes "fst (get_redis w) = Inr r" and "redis_exc w = None"
  shows "fst (get_redis (w\<lparr>trace := t, redis_data := (redis_data w)(''hits'' \<mapsto> m)\<rparr>)) = Inr r"
    and "redis_exc (w\<lparr>trace := t, redis_data := (redis_data w)(''hits'' \<mapsto> m)\<rparr>) = None"
    and "stored (w\<lparr>trace := t, redis_data := (redis_data w)(''hits'' \<mapsto> m)\<rparr>) ''hits'' = m"
  using assms by (simp_all add: stored_def)

lemma serve_three_counters:
  assumes r: "fst (get_redis w) = Inr r" and up: "redis_exc w = None"
    and fresh: "redis_data w ''hits'' = None"
  shows "fst (serve [counter, counter, counter] w) =
    [Inr \<lparr>status_code = 200, body = [(''visits'', JInt 1)]\<rparr>,
     Inr \<lparr>status_code = 200, body = [(''visits'', JInt 2)]\<rparr>,
     Inr \<lparr>status_code = 200, body = [(''visits'', JInt 3)]\<rparr>]"
proof -
  have s0: "stored w ''hits'' = 0" using fresh by (simp add: stored_def)
  define w1 where "w1 = w\<lparr>trace := trace w @ [RedisIncr r ''hits''],
       redis_data := (redis_data w)(''hits'' \<mapsto> 1)\<rparr>"
  have c1: "counter w = (Inr \<lparr>status_code = 200, body = [(''visits'', JInt 1)]\<rparr>, w1)"
    using counter_ok [OF r up s0] by (simp add: int64_max_def w1_def)
  have r1: "fst (get_redis w1) = Inr r" and up1: "redis_exc w1 = None"
    and s1: "stored w1 ''hits'' = 1"
    unfolding w1_def using counter_ok_next [OF r up] by blast+
  define w2 where "w2 = w1\<lparr>trace := trace w1 @ [RedisIncr r ''hits''],
       redis_data := (redis_data w1)(''hits'' \<mapsto> 2)\<rparr>"
  have c2: "counter w1 = (Inr \<lparr>status_code = 200, body = [(''visits'', JInt 2)]\<rparr>, w2)"
    using counter_ok [OF r1 up1 s1] by (simp add: int64_max_def w2_def)
  have r2: "fst (get_redis w2) = Inr r" and up2: "redis_exc w2 = None"
    and s2: "stored w2 ''hits'' = 2"
    unfolding w2_def using counter_ok_next [OF r1 up1] by blast+
  have c3: "fst (counter w2) = Inr \<lparr>status_code = 200, body = [(''visits'', JInt 3)]\<rparr>"
    using counter_ok [OF r2 up2 s2] by (simp add: int64_max_def)
  obtain w3 where c3': "counter w2 =
      (Inr \<lparr>status_code = 200, body = [(''visits'', JInt 3)]\<rparr>, w3)"
    using c3 by (cases "counter w2") simp
  show ?thesis by (simp add: c1 c2 c3')
qed

text \<open>
  C3, amended. Each call to the counter endpoint that gets as far as building its store
  client (the configured port parses as an integer) issues exactly one request, an
  increment of \<open>hits\<close>. A call succeeds when the store answers and the value is below its
  maximum; a call that succeeds has increased the stored value by exactly 1 and returns
  the new value. On a fresh, reachable store three calls in sequence return \<open>visits\<close>
  1, 2 and 3, in that order.
\<close>

theorem counter_one_increment:
  assumes "fst (get_redis w) = Inr r"
  shows "\<exists>res w'. counter w = (res, w') \<and> trace w' = trace w @ [RedisIncr r ''hits''] \<and>
     (redis_exc w = None \<and> stored w ''hits'' \<noteq> int64_max \<longrightarrow> (\<exists>resp. res = Inr resp)) \<and>
     (\<forall>resp. res = Inr resp \<longrightarrow>
        stored w' ''hits'' = stored w ''hits'' + 1 \<and>
        resp = \<lparr>status_code = 200, body = [(''visits'', JInt (stored w ''hits'' + 1))]\<rparr>) \<and>
     (redis_exc w = None \<and> redis_data w ''hits'' = None \<longrightarrow>
        fst (serve [counter, counter, counter] w) =
          [Inr \<lparr>status_code = 200, body = [(''visits'', JInt 1)]\<rparr>,
           Inr \<lparr>status_code = 200, body = [(''visits'', JInt 2)]\<rparr>,
           Inr \<lparr>status_code = 200, body = [(''visits'', JInt 3)]\<rparr>])"
proof -
  have "redis_exc w = None \<and> redis_data w ''hits'' = None \<longrightarrow>
        fst (serve [counter, counter, counter] w) =
          [Inr \<lparr>status_code = 200, body = [(''visits'', JInt 1)]\<rparr>,
           Inr \<lparr>status_code = 200, body = [(''visits'', JInt 2)]\<rparr>,
           Inr \<lparr>status_code = 200, body = [(''visits'', JInt 3)]\<rparr>]"
    using serve_three_counters [OF assms] by blast
  moreover have "\<exists>res w'. counter w = (res, w') \<and>
     trace w' = trace w @ [RedisIncr r ''hits''] \<and>
     (redis_exc w = None \<and> stored w ''hits'' \<noteq> int64_max \<longrightarrow> (\<exists>resp. res = Inr resp)) \<and>
     (\<forall>resp. res = Inr resp \<longrightarrow>
        stored w' ''hits'' = stored w ''hits'' + 1 \<and>
        resp = \<lparr>status_code = 200, body = [(''visits'', JInt (stored w ''hits'' + 1))]\<rparr>)"
    using assms by (cases "redis_exc w") (simp_all add: counter_eq stored_def)
  ultimately show ?thesis by blast
qed

theorem counter_one_increment_witness:
  "fst (get_redis world_up) =
     Inr [(''host'', PStr ''redis''), (''port'', PInt 6379), (''decode_responses'', PBool True)] \<and>
   redis_exc world_up = None \<and> redis_data world_up ''hits'' = None \<and>
   fst (counter world_up) = Inr \<lparr>status_code = 200, body = [(''visits'', JInt 1)]\<rparr> \<and>
   trace (snd (counter world_up)) =
     [RedisIncr [(''host'', PStr ''redis''), (''port'', PInt 6379),
                 (''decode_responses'', PBool True)] ''hits''] \<and>
   fst (serve [counter, counter, counter] world_up) =
     [Inr \<lparr>status_code = 200, body = [(''visits'', JInt 1)]\<rparr>,
      Inr \<lparr>status_code = 200, body = [(''visits'', JInt 2)]\<rparr>,
      Inr \<lparr>status_code = 200, body = [(''visits'', JInt 3)]\<rparr>]"
proof -
  have g: "fst (get_redis world_up) =
      Inr [(''host'', PStr ''redis''), (''port'', PInt 6379), (''decode_responses'', PBool True)]"
    by (simp add: get_redis_eq) (simp add: sample_defs)
  have h: "redis_exc world_up = None \<and> redis_data world_up ''hits'' = None"
    by (simp add: sample_defs)
  have c: "fst (counter world_up) = Inr \<lparr>status_code = 200, body = [(''visits'', JInt 1)]\<rparr>"
    using g h by (simp add: counter_eq stored_def int64_max_def)
  have t: "trace world_up = []" by (simp add: sample_defs)
  from counter_one_increment [OF g] g h c t show ?thesis by auto
qed

section \<open>The counter under concurrent callers\<close>

lemma counter_invI:
  assumes "length cs = n" and "v0 \<le> stored w ''hits''"
    and "\<And>k m. k < n \<Longrightarrow> returned (cs ! k) = Some m \<Longrightarrow> v0 < m \<and> m \<le> stored w ''hits''"
    and "\<And>k j m. k < n \<Longrightarrow> j < n \<Longrightarrow> returned (cs ! k) = Some m \<Longrightarrow>
           returned (cs ! j) = Some m \<Longrightarrow> k = j"
    and "\<And>m. v0 < m \<Longrightarrow> m \<le> stored w ''hits'' \<Longrightarrow> \<exists>k<n. returned (cs ! k) = Some m"
    and "\<And>k resp. k < n \<Longrightarrow> cs ! k = Finished (Inr resp) \<Longrightarrow> returned (cs ! k) \<noteq> None"
  shows "counter_inv n v0 (cs, w)"
  unfolding counter_inv_def prod.case
  using assms by (intro conjI allI impI) (blast+)

lemma caller_step_effect:
  assumes "caller_step c w = (c', w')"
  shows "(returned c' = returned c \<and> stored w' ''hits'' = stored w ''hits'' \<and>
            (\<forall>resp. c' = Finished (Inr resp) \<longrightarrow> c' = c)) \<or>
         (returned c = None \<and> returned c' = Some (stored w ''hits'' + 1) \<and>
            stored w' ''hits'' = stored w ''hits'' + 1)"
proof (cases c)
  case Start
  have "get_redis w = (fst (get_redis w), w)" by (rule get_redis_pair)
  then show ?thesis using assms Start
    by (cases "fst (get_redis w)") auto
next
  case (HaveClient r)
  then show ?thesis using assms
    by (auto simp add: bind_io_def redis_incr_eq jsonify_def return_io_def stored_def
        split: option.splits if_splits)
next
  case (Finished res)
  then show ?thesis using assms by auto
qed


lemma counter_inv_step:
  assumes inv: "counter_inv n v0 st"
  shows "counter_inv n v0 (sched_step i st)"
proof -
  obtain cs w where st: "st = (cs, w)" by (cases st)
  show ?thesis
  proof (cases "i < length cs")
    case False
    then show ?thesis using inv by (simp add: sched_step_def st)
  next
    case True
    obtain c' w' where step: "caller_step (cs ! i) w = (c', w')"
      by (cases "caller_step (cs ! i) w")
    have new: "sched_step i st = (cs[i := c'], w')"
      using True step by (simp add: sched_step_def st)
    have len: "length cs = n" and lo: "v0 \<le> stored w ''hits''"
      and rng: "\<And>k m. k < n \<Longrightarrow> returned (cs ! k) = Some m \<Longrightarrow> v0 < m \<and> m \<le> stored w ''hits''"
      and inj: "\<And>k j m. k < n \<Longrightarrow> j < n \<Longrightarrow> returned (cs ! k) = Some m \<Longrightarrow>
                  returned (cs ! j) = Some m \<Longrightarrow> k = j"
      and sur: "\<And>m. v0 < m \<Longrightarrow> m \<le> stored w ''hits'' \<Longrightarrow> \<exists>k<n. returned (cs ! k) = Some m"
      and fin: "\<And>k resp. k < n \<Longrightarrow> cs ! k = Finished (Inr resp) \<Longrightarrow> returned (cs ! k) \<noteq> None"
      using inv unfolding counter_inv_def st by auto
    have i: "i < n" using True len by simp
    from caller_step_effect [OF step]
    show ?thesis
    proof
      assume same: "returned c' = returned (cs ! i) \<and> stored w' ''hits'' = stored w ''hits'' \<and>
            (\<forall>resp. c' = Finished (Inr resp) \<longrightarrow> c' = cs ! i)"
      have ret: "\<And>k. k < n \<Longrightarrow> returned (cs[i := c'] ! k) = returned (cs ! k)"
      proof -
        fix k assume "k < n"
        then show "returned (cs[i := c'] ! k) = returned (cs ! k)"
          using same len by (cases "k = i") simp_all
      qed
      have fin': "\<And>k resp. k < n \<Longrightarrow> cs[i := c'] ! k = Finished (Inr resp) \<Longrightarrow>
          returned (cs[i := c'] ! k) \<noteq> None"
      proof -
        fix k resp assume k: "k < n" and f: "cs[i := c'] ! k = Finished (Inr resp)"
        have "cs ! k = Finished (Inr resp)"
          using f same len k by (cases "k = i") (auto simp add: nth_list_update)
        then show "returned (cs[i := c'] ! k) \<noteq> None" using fin [OF k] ret [OF k] by simp
      qed
      have st': "stored w' ''hits'' = stored w ''hits''" using same by simp
      show ?thesis
        unfolding new
      proof (rule counter_invI)
        show "length (cs[i := c']) = n" using len by simp
        show "v0 \<le> stored w' ''hits''" using lo st' by simp
        show "\<And>k m. k < n \<Longrightarrow> returned (cs[i := c'] ! k) = Some m \<Longrightarrow>
            v0 < m \<and> m \<le> stored w' ''hits''"
          using rng ret st' by simp
        show "\<And>k j m. k < n \<Longrightarrow> j < n \<Longrightarrow> returned (cs[i := c'] ! k) = Some m \<Longrightarrow>
            returned (cs[i := c'] ! j) = Some m \<Longrightarrow> k = j"
          using inj ret by simp
        show "\<And>m. v0 < m \<Longrightarrow> m \<le> stored w' ''hits'' \<Longrightarrow>
            \<exists>k<n. returned (cs[i := c'] ! k) = Some m"
        proof -
          fix m assume "v0 < m" and "m \<le> stored w' ''hits''"
          then obtain k where "k < n" and "returned (cs ! k) = Some m"
            using sur st' by auto
          then show "\<exists>k<n. returned (cs[i := c'] ! k) = Some m" using ret by auto
        qed
        show "\<And>k resp. k < n \<Longrightarrow> cs[i := c'] ! k = Finished (Inr resp) \<Longrightarrow>
            returned (cs[i := c'] ! k) \<noteq> None"
          by (rule fin')
      qed
    next
      assume incr: "returned (cs ! i) = None \<and> returned c' = Some (stored w ''hits'' + 1) \<and>
            stored w' ''hits'' = stored w ''hits'' + 1"
      have reti: "returned (cs[i := c'] ! i) = Some (stored w ''hits'' + 1)"
        using incr True by simp
      have reto: "\<And>k. k < n \<Longrightarrow> k \<noteq> i \<Longrightarrow> returned (cs[i := c'] ! k) = returned (cs ! k)"
        by simp
      have rng': "\<And>k m. k < n \<Longrightarrow> returned (cs[i := c'] ! k) = Some m \<Longrightarrow>
          v0 < m \<and> m \<le> stored w' ''hits''"
      proof -
        fix k m assume k: "k < n" and r: "returned (cs[i := c'] ! k) = Some m"
        show "v0 < m \<and> m \<le> stored w' ''hits''"
        proof (cases "k = i")
          case True
          then show ?thesis using r reti incr lo by simp
        next
          case False
          then show ?thesis using rng [OF k] r reto [OF k] incr by simp
        qed
      qed
      have inj': "\<And>k j m. k < n \<Longrightarrow> j < n \<Longrightarrow> returned (cs[i := c'] ! k) = Some m \<Longrightarrow>
                  returned (cs[i := c'] ! j) = Some m \<Longrightarrow> k = j"
      proof -
        fix k j m assume k: "k < n" and j: "j < n"
          and rk: "returned (cs[i := c'] ! k) = Some m"
          and rj: "returned (cs[i := c'] ! j) = Some m"
        have old: "\<And>l. l < n \<Longrightarrow> l \<noteq> i \<Longrightarrow> returned (cs[i := c'] ! l) = Some m \<Longrightarrow>
            m \<le> stored w ''hits''"
          using rng reto by simp
        show "k = j"
        proof (cases "k = i")
          case ki: True
          show ?thesis
          proof (cases "j = i")
            case True then show ?thesis using ki by simp
          next
            case False
            have "m \<le> stored w ''hits''" using old [OF j False rj] .
            moreover have "m = stored w ''hits'' + 1" using rk ki reti by simp
            ultimately show ?thesis by simp
          qed
        next
          case kni: False
          show ?thesis
          proof (cases "j = i")
            case True
            have "m \<le> stored w ''hits''" using old [OF k kni rk] .
            moreover have "m = stored w ''hits'' + 1" using rj True reti by simp
            ultimately show ?thesis by simp
          next
            case False
            then show ?thesis using inj [OF k j] rk rj reto kni k j by simp
          qed
        qed
      qed
      have sur': "\<And>m. v0 < m \<Longrightarrow> m \<le> stored w' ''hits'' \<Longrightarrow>
          \<exists>k<n. returned (cs[i := c'] ! k) = Some m"
      proof -
        fix m assume lo': "v0 < m" and hi: "m \<le> stored w' ''hits''"
        show "\<exists>k<n. returned (cs[i := c'] ! k) = Some m"
        proof (cases "m = stored w ''hits'' + 1")
          case True
          then show ?thesis using reti i by blast
        next
          case False
          then have "m \<le> stored w ''hits''" using hi incr by simp
          from sur [OF lo' this] obtain k where k: "k < n" and rk: "returned (cs ! k) = Some m"
            by blast
          have "k \<noteq> i" using rk incr by auto
          then show ?thesis using k rk reto by auto
        qed
      qed
      have fin': "\<And>k resp. k < n \<Longrightarrow> cs[i := c'] ! k = Finished (Inr resp) \<Longrightarrow>
          returned (cs[i := c'] ! k) \<noteq> None"
      proof -
        fix k resp assume k: "k < n" and f: "cs[i := c'] ! k = Finished (Inr resp)"
        show "returned (cs[i := c'] ! k) \<noteq> None"
        proof (cases "k = i")
          case True then show ?thesis using reti by simp
        next
          case False
          then show ?thesis using fin [OF k] f by simp
        qed
      qed
      have lo': "v0 \<le> stored w' ''hits''" using lo incr by simp
      have len': "length (cs[i := c']) = n" using len by simp
      show ?thesis
        unfolding new using len' lo' rng' inj' sur' fin' by (rule counter_invI)
    qed
  qed
qed

lemma counter_inv_run:
  "counter_inv n v0 st \<Longrightarrow> counter_inv n v0 (run_sched sched st)"
  unfolding run_sched_def
  by (induction sched arbitrary: st) (simp_all add: counter_inv_step)

lemma counter_inv_init: "counter_inv n (stored w ''hits'') (replicate n Start, w)"
  by (simp add: counter_inv_def)


lemma caller_alone_is_counter:
  "run_sched [0, 0] ([Start], v) = ([Finished (fst (counter v))], snd (counter v))"
proof -
  have g: "get_redis v = (fst (get_redis v), v)" by (rule get_redis_pair)
  show ?thesis
  proof (cases "fst (get_redis v)")
    case (Inl e)
    then show ?thesis using g
      by (simp add: run_sched_def sched_step_def counter_def bind_io_def)
  next
    case (Inr r)
    then show ?thesis using g
      by (simp add: run_sched_def sched_step_def counter_def bind_io_def split: prod.splits)
  qed
qed

lemma caller_step_trace:
  "trace (snd (caller_step Start v)) = trace v"
  "trace (snd (caller_step (HaveClient r) v)) = trace v @ [RedisIncr r ''hits'']"
proof -
  have g: "get_redis v = (fst (get_redis v), v)" by (rule get_redis_pair)
  show "trace (snd (caller_step Start v)) = trace v"
    using g by (cases "fst (get_redis v)") simp_all
  show "trace (snd (caller_step (HaveClient r) v)) = trace v @ [RedisIncr r ''hits'']"
    by (simp add: bind_io_def redis_incr_eq jsonify_def return_io_def
        split: option.splits)
qed

lemma run_three_callers:
  "fst (run_sched [0, 1, 2, 2, 0, 1] (replicate 3 Start, world_up)) =
     [Finished (Inr \<lparr>status_code = 200, body = [(''visits'', JInt 2)]\<rparr>),
      Finished (Inr \<lparr>status_code = 200, body = [(''visits'', JInt 3)]\<rparr>),
      Finished (Inr \<lparr>status_code = 200, body = [(''visits'', JInt 1)]\<rparr>)]"
  by (simp add: run_sched_def sched_step_def numeral_3_eq_3 get_redis_eq bind_io_def
      redis_incr_eq jsonify_def return_io_def stored_def int64_max_def sample_defs)

text \<open>
  C8. Let \<open>n\<close> callers run \<open>counter\<close> against the same store, their steps interleaved
  in any order (the schedule), the store answering one request at a time. If all \<open>n\<close>
  calls have returned a response, the \<open>n\<close> returned values are pairwise distinct and are,
  as a set, the \<open>n\<close> consecutive integers that start at the value stored before plus 1, and
  the stored value has grown by \<open>n\<close>. Each call touches the store in one step only, the
  single \<open>INCR\<close> request (no read followed by a write), and a caller that runs alone does
  what \<open>counter\<close> does.
\<close>

theorem concurrent_counter_values:
  assumes run: "run_sched sched (replicate n Start, w) = (cs, w')"
    and finished: "\<forall>i<n. \<exists>resp. cs ! i = Finished (Inr resp)"
  shows "distinct (map returned cs) \<and>
     set (map returned cs) = Some ` {stored w ''hits'' + 1 .. stored w ''hits'' + int n} \<and>
     stored w' ''hits'' = stored w ''hits'' + int n \<and>
     trace (snd (caller_step Start v)) = trace v \<and>
     trace (snd (caller_step (HaveClient r) v)) = trace v @ [RedisIncr r ''hits''] \<and>
     run_sched [0, 0] ([Start], v) = ([Finished (fst (counter v))], snd (counter v))"
proof -
  let ?v0 = "stored w ''hits''" and ?S = "stored w' ''hits''"
  have "counter_inv n ?v0 (cs, w')"
    using counter_inv_run [OF counter_inv_init, of n w sched] run by simp
  then have len: "length cs = n" and lo: "?v0 \<le> ?S"
    and rng: "\<And>k m. k < n \<Longrightarrow> returned (cs ! k) = Some m \<Longrightarrow> ?v0 < m \<and> m \<le> ?S"
    and inj: "\<And>k j m. k < n \<Longrightarrow> j < n \<Longrightarrow> returned (cs ! k) = Some m \<Longrightarrow>
                returned (cs ! j) = Some m \<Longrightarrow> k = j"
    and sur: "\<And>m. ?v0 < m \<Longrightarrow> m \<le> ?S \<Longrightarrow> \<exists>k<n. returned (cs ! k) = Some m"
    and fin: "\<And>k resp. k < n \<Longrightarrow> cs ! k = Finished (Inr resp) \<Longrightarrow> returned (cs ! k) \<noteq> None"
    unfolding counter_inv_def by auto
  have some: "\<And>k. k < n \<Longrightarrow> \<exists>m. returned (cs ! k) = Some m"
    using finished fin by fastforce
  have d: "distinct (map returned cs)"
    unfolding distinct_conv_nth
  proof (intro allI impI)
    fix i j assume i: "i < length (map returned cs)" and j: "j < length (map returned cs)"
      and ne: "i \<noteq> j"
    from i j len have i': "i < n" and j': "j < n" by simp_all
    from some [OF i'] obtain m where m: "returned (cs ! i) = Some m" by blast
    show "map returned cs ! i \<noteq> map returned cs ! j"
      using inj [OF i' j' m] m ne i' j' len by auto
  qed
  have s: "set (map returned cs) = Some ` {?v0 + 1 .. ?S}"
  proof (intro set_eqI iffI)
    fix x assume "x \<in> set (map returned cs)"
    then obtain k where k: "k < n" and x: "x = returned (cs ! k)"
      using len by (auto simp add: in_set_conv_nth)
    from some [OF k] obtain m where m: "returned (cs ! k) = Some m" by blast
    from rng [OF k m] show "x \<in> Some ` {?v0 + 1 .. ?S}" using x m by auto
  next
    fix x assume "x \<in> Some ` {?v0 + 1 .. ?S}"
    then obtain m where x: "x = Some m" and "?v0 < m" and "m \<le> ?S" by auto
    from sur [OF this(2,3)] obtain k where k: "k < n" and m: "returned (cs ! k) = Some m"
      by blast
    have "cs ! k \<in> set cs" using k len by simp
    then have "returned (cs ! k) \<in> set (map returned cs)" by simp
    then show "x \<in> set (map returned cs)" using x m by simp
  qed
  have "card (set (map returned cs)) = length (map returned cs)"
    using d by (rule distinct_card)
  then have "card (set (map returned cs)) = n" using len by simp
  moreover have "card (Some ` {?v0 + 1 .. ?S}) = card {?v0 + 1 .. ?S}"
    by (rule card_image) simp
  ultimately have "card {?v0 + 1 .. ?S} = n" using s by simp
  then have S: "?S = ?v0 + int n" using lo by simp
  have t1: "trace (snd (caller_step Start v)) = trace v"
    by (rule caller_step_trace(1))
  have t2: "trace (snd (caller_step (HaveClient r) v)) = trace v @ [RedisIncr r ''hits'']"
    by (rule caller_step_trace(2))
  have a: "run_sched [0, 0] ([Start], v) = ([Finished (fst (counter v))], snd (counter v))"
    by (rule caller_alone_is_counter)
  have s': "set (map returned cs) = Some ` {?v0 + 1 .. ?v0 + int n}"
    using s S by simp
  show ?thesis using d s' S t1 t2 a by (intro conjI)
qed


theorem concurrent_counter_values_witness:
  "fst (run_sched [0, 1, 2, 2, 0, 1] (replicate 3 Start, world_up)) =
     [Finished (Inr \<lparr>status_code = 200, body = [(''visits'', JInt 2)]\<rparr>),
      Finished (Inr \<lparr>status_code = 200, body = [(''visits'', JInt 3)]\<rparr>),
      Finished (Inr \<lparr>status_code = 200, body = [(''visits'', JInt 1)]\<rparr>)] \<and>
   map returned (fst (run_sched [0, 1, 2, 2, 0, 1] (replicate 3 Start, world_up))) =
     [Some 2, Some 3, Some 1] \<and>
   set (map returned (fst (run_sched [0, 1, 2, 2, 0, 1] (replicate 3 Start, world_up)))) =
     Some ` {1 .. 3} \<and>
   stored (snd (run_sched [0, 1, 2, 2, 0, 1] (replicate 3 Start, world_up))) ''hits'' = 3"
proof -
  let ?st = "run_sched [0, 1, 2, 2, 0, 1] (replicate 3 Start, world_up)"
  have run: "?st = (fst ?st, snd ?st)" by simp
  have fin: "\<forall>i<3. \<exists>resp. fst ?st ! i = Finished (Inr resp)"
    unfolding run_three_callers by (simp add: less_Suc_eq numeral_3_eq_3)
  have v0: "stored world_up ''hits'' = 0" by (simp add: stored_def sample_defs)
  have m: "map returned (fst ?st) = [Some 2, Some 3, Some 1]"
    unfolding run_three_callers by simp
  note th = concurrent_counter_values [OF run fin, where v = world_up and r = "[]"]
  have s: "set (map returned (fst ?st)) = Some ` {1 .. 3}"
    using th [THEN conjunct2, THEN conjunct1] v0 by simp
  have S: "stored (snd ?st) ''hits'' = 3"
    using th [THEN conjunct2, THEN conjunct2, THEN conjunct1] v0 by simp
  show ?thesis using run_three_callers m s S by (intro conjI)
qed

section \<open>The home endpoints\<close>

text \<open>
  C9, as stated, fails for the Django application: the body of its home view has a
  fourth field, \<open>database\<close>.
\<close>

theorem home_fields_counterexample:
  "fst (dj_home \<lparr>req_method = ''GET'', req_path = ''/''\<rparr> world_up) = Inr \<lparr>status_code = 200, body =
     [(''message'', JStr ''Hello from Django!''), (''hostname'', JStr ''web-1''),
      (''environment'', JStr ''development''), (''database'', JStr ''connected'')]\<rparr> \<and>
   map_sum id fields (fst (dj_home \<lparr>req_method = ''GET'', req_path = ''/''\<rparr> world_up)) \<noteq>
     Inr [''message'', ''hostname'', ''environment'']"
  by (simp add: dj_home_eq fields_def) (simp add: sample_defs)

text \<open>
  C9, amended. For every request both home views answer with status 200 and a body that
  starts with the fields \<open>message\<close>, \<open>hostname\<close> and \<open>environment\<close>, where
  \<open>environment\<close> is the value of \<open>APP_ENV\<close> or \<open>development\<close> when it is not set. In
  the Flask application these are all the fields; in the Django application a fourth
  field \<open>database\<close> follows, holding \<open>connected\<close> or \<open>error: \<close> and the text of the
  exception of the database check.
\<close>

theorem home_reports_identity:
  "home w = (Inr \<lparr>status_code = 200, body =
      [(''message'', JStr ''Hello from Docker Compose!''),
       (''hostname'', JStr (hostname w)),
       (''environment'', JStr (case environ w ''APP_ENV'' of Some v \<Rightarrow> v
                               | None \<Rightarrow> ''development''))]\<rparr>, w) \<and>
   (\<exists>d w'. dj_home request w = (Inr \<lparr>status_code = 200, body =
      [(''message'', JStr ''Hello from Django!''),
       (''hostname'', JStr (hostname w)),
       (''environment'', JStr (case environ w ''APP_ENV'' of Some v \<Rightarrow> v
                               | None \<Rightarrow> ''development'')),
       (''database'', JStr d)]\<rparr>, w') \<and>
      (d = ''connected'' \<or> (\<exists>e. d = ''error: '' @ exc_str e)))"
proof -
  have "\<exists>d w'. dj_home request w = (Inr \<lparr>status_code = 200, body =
      [(''message'', JStr ''Hello from Django!''),
       (''hostname'', JStr (hostname w)),
       (''environment'', JStr (case environ w ''APP_ENV'' of Some v \<Rightarrow> v
                               | None \<Rightarrow> ''development'')),
       (''database'', JStr d)]\<rparr>, w') \<and>
      (d = ''connected'' \<or> (\<exists>e. d = ''error: '' @ exc_str e))"
    by (cases "dj_cursor_exc w"; cases "dj_execute_exc w") (auto simp add: dj_home_eq)
  then show ?thesis by (simp add: home_eq)
qed

section \<open>The Django health endpoint\<close>

text \<open>
  C10. In every state of the world the Django health view returns status 200 with the
  body \<open>{"status": "healthy"}\<close> and leaves the world as it was: it makes no external
  call, so the answer does not depend on the database or on the cache.
\<close>

theorem dj_health_constant:
  "dj_health request w = (Inr \<lparr>status_code = 200, body = [(''status'', JStr ''healthy'')]\<rparr>, w)"
  by (simp add: dj_health_def jsonify_def return_io_def)

end
